theory Spec2Isabelle
  imports Complex_Main "HOL-Library.AList"
begin

section \<open>Values, objects and errors\<close>

text \<open>
  The settings service works on untyped JavaScript values. The fields of the settings
  document are scalars, so the value type has the primitives, \<open>undefined\<close> and
  \<open>null\<close>, one opaque object kind for the storage identity, and the members that
  every plain object inherits. \<open>JNaN\<close> is the number NaN; finite numbers are embedded
  in the reals (no claim depends on rounding).
\<close>

datatype jsval =
    JUndefined
  | JNull
  | JBool bool
  | JNum real
  | JNaN
  | JStr string
  | JObjectId string
  | JInherited string

text \<open>
  An object is its list of own enumerable properties in insertion order, which is the
  order \<open>Object.keys\<close> and \<open>Object.assign\<close> walk. Writing an existing property
  keeps its position and writing a new one appends it. Every object of the service is a
  plain object, so a read that finds no own property goes on to \<open>Object.prototype\<close>:
  \<open>JInherited n\<close> is the member of \<open>Object.prototype\<close> named \<open>n\<close>. The table
  lists these members with their \<open>length\<close> property (the number of parameters of the
  function; \<open>__proto__\<close> is the prototype object itself and has none). A read that finds
  nothing there either gives \<open>undefined\<close>.
\<close>

type_synonym obj = "(string \<times> jsval) list"

definition object_prototype :: obj where
  "object_prototype =
    [(''constructor'', JNum 1), (''__defineGetter__'', JNum 2), (''__defineSetter__'', JNum 2),
     (''hasOwnProperty'', JNum 1), (''__lookupGetter__'', JNum 1), (''__lookupSetter__'', JNum 1),
     (''isPrototypeOf'', JNum 1), (''propertyIsEnumerable'', JNum 1), (''toString'', JNum 0),
     (''valueOf'', JNum 0), (''__proto__'', JUndefined), (''toLocaleString'', JNum 0)]"

definition keys :: "obj \<Rightarrow> string list" where
  "keys ob = map fst ob"

definition get :: "obj \<Rightarrow> string \<Rightarrow> jsval" where
  "get ob k =
    (case map_of ob k of
       Some v \<Rightarrow> v
     | None \<Rightarrow> if k \<in> set (keys object_prototype) then JInherited k else JUndefined)"

definition set_prop :: "obj \<Rightarrow> string \<Rightarrow> jsval \<Rightarrow> obj" where
  "set_prop ob k v = AList.update k v ob"

text \<open>\<open>Object.assign(target, source)\<close>: every own property of the source is written
  to the target, in the source's order, also when its value is \<open>undefined\<close>.\<close>

definition assign :: "obj \<Rightarrow> obj \<Rightarrow> obj" where
  "assign target source = fold (\<lambda>(k, v) t. set_prop t k v) source target"

text \<open>A \<open>null\<close> or \<open>undefined\<close> source is skipped by \<open>Object.assign\<close>.\<close>

fun assign_opt :: "obj \<Rightarrow> obj option \<Rightarrow> obj" where
  "assign_opt target None = target"
| "assign_opt target (Some source) = assign target source"

fun truthy :: "jsval \<Rightarrow> bool" where
  "truthy JUndefined = False"
| "truthy JNull = False"
| "truthy (JBool b) = b"
| "truthy (JNum r) = (r \<noteq> 0)"
| "truthy JNaN = False"
| "truthy (JStr s) = (s \<noteq> [])"
| "truthy (JObjectId h) = True"
| "truthy (JInherited n) = True"

text \<open>\<open>a || b\<close>\<close>

definition js_or :: "jsval \<Rightarrow> jsval \<Rightarrow> jsval" where
  "js_or a b = (if truthy a then a else b)"

text \<open>\<open>v.length\<close> for a value that is neither \<open>null\<close> nor \<open>undefined\<close>: strings
  and functions have one among the values modelled.\<close>

fun js_length :: "jsval \<Rightarrow> jsval" where
  "js_length (JStr s) = JNum (real (length s))"
| "js_length (JInherited n) =
    (case map_of object_prototype n of Some l \<Rightarrow> l | None \<Rightarrow> JUndefined)"
| "js_length v = JUndefined"

text \<open>\<open>v > 0\<close>: \<open>undefined\<close> converts to NaN, and every comparison with NaN is false.
  It is applied to the result of \<open>js_length\<close> only.\<close>

fun js_gt0 :: "jsval \<Rightarrow> bool" where
  "js_gt0 (JNum r) = (r > 0)"
| "js_gt0 v = False"

text \<open>\<open>v && v.length > 0\<close>, the test both \<open>changeProperties\<close> and \<open>deleteLogo\<close>
  apply to \<open>logo_file\<close>.\<close>

definition nonempty :: "jsval \<Rightarrow> bool" where
  "nonempty v = (truthy v \<and> js_gt0 (js_length v))"

datatype error = Error string | TypeError string

section \<open>Collaborators that are not part of the service\<close>

text \<open>
  The parsing helpers of \<open>lib/parse\<close>, the configuration constants of
  \<open>lib/settings\<close> and the platform functions \<open>url.resolve\<close>, \<open>path.resolve\<close>
  and number formatting are parameters of the model. \<open>resolve_url\<close> is \<open>url.resolve\<close>
  on two strings: it gives the resolved string, or the error the platform throws for a
  string it refuses. \<open>unlink_fails\<close> says for which paths the operating system refuses
  a deletion.
\<close>

record env =
  getString :: "jsval \<Rightarrow> jsval"
  getNumberIfPositive :: "jsval \<Rightarrow> jsval"
  getBooleanIfValid :: "jsval \<Rightarrow> jsval \<Rightarrow> jsval"
  filesUploadUrl :: string
  filesUploadPath :: string
  resolve_url :: "string \<Rightarrow> string \<Rightarrow> error + string"
  resolve_path :: "string \<Rightarrow> string"
  number_to_string :: "real \<Rightarrow> string"
  unlink_fails :: "string \<Rightarrow> bool"

text \<open>The string a value becomes on the right of \<open>string + value\<close>.\<close>

fun to_string :: "env \<Rightarrow> jsval \<Rightarrow> string" where
  "to_string E JUndefined = ''undefined''"
| "to_string E JNull = ''null''"
| "to_string E (JBool b) = (if b then ''true'' else ''false'')"
| "to_string E (JNum r) = number_to_string E r"
| "to_string E JNaN = ''NaN''"
| "to_string E (JStr s) = s"
| "to_string E (JObjectId h) = h"
| "to_string E (JInherited n) =
    (if n = ''__proto__'' then ''[object Object]''
     else ''function '' @ (if n = ''constructor'' then ''Object'' else n) @ ''() { [native code] }'')"

text \<open>\<open>url.resolve(from, to)\<close> raises a \<open>TypeError\<close> when \<open>from\<close> is not a string;
  on strings it is the platform's resolution.\<close>

fun url_resolve :: "env \<Rightarrow> jsval \<Rightarrow> string \<Rightarrow> error + jsval" where
  "url_resolve E (JStr from) to =
    (case resolve_url E from to of Inl e \<Rightarrow> Inl e | Inr u \<Rightarrow> Inr (JStr u))"
| "url_resolve E v to = Inl (TypeError ''ERR_INVALID_ARG_TYPE'')"

section \<open>The service state\<close>

text \<open>
  \<open>this_defaultSettings\<close> is the field \<open>this.defaultSettings\<close> of the one service
  object; \<open>collection\<close> is \<open>db.collection('settings')\<close>; \<open>files\<close> are the paths
  present on disk. \<open>unlink_calls\<close> and \<open>update_calls\<close> record every call of
  \<open>fs.unlink\<close> and of \<open>updateSettings\<close> with its argument.
\<close>

record service =
  this_defaultSettings :: obj
  collection :: "obj list"
  files :: "string list"
  unlink_calls :: "string list"
  update_calls :: "obj list"

text \<open>The table the constructor assigns.\<close>

definition defaultSettings :: obj where
  "defaultSettings =
    [(''domain'', JStr ''''),
     (''logo_file'', JNull),
     (''language'', JStr ''en''),
     (''currency_code'', JStr ''USD''),
     (''currency_symbol'', JStr ''$''),
     (''currency_format'', JStr ''${amount}''),
     (''thousand_separator'', JStr '',''),
     (''decimal_separator'', JStr ''.''),
     (''decimal_number'', JNum 2),
     (''timezone'', JStr ''Asia/Singapore''),
     (''date_format'', JStr ''MMMM D, YYYY''),
     (''time_format'', JStr ''h:mm a''),
     (''default_shipping_country'', JStr ''SG''),
     (''default_shipping_state'', JStr ''''),
     (''default_shipping_city'', JStr ''''),
     (''default_product_sorting'', JStr ''stock_status,price,position''),
     (''product_fields'', JStr ''path,id,name,category_id,category_name,sku,images,enabled,discontinued,stock_status,stock_quantity,price,on_sale,regular_price,attributes,tags,position''),
     (''products_limit'', JNum 30),
     (''weight_unit'', JStr ''kg''),
     (''length_unit'', JStr ''cm''),
     (''hide_billing_address'', JBool False),
     (''order_confirmation_copy_to'', JStr '''')]"

definition constructor :: "obj list \<Rightarrow> string list \<Rightarrow> service" where
  "constructor docs fs =
    \<lparr>this_defaultSettings = defaultSettings, collection = docs, files = fs,
     unlink_calls = [], update_calls = []\<rparr>"

section \<open>The repository\<close>

text \<open>
  Modelled from the spec: the document store behind \<open>lib/mongo\<close> is not part of the
  sources. The spec's repository contract is \<open>findOne() -> Record|null\<close>,
  \<open>count() -> integer\<close>, \<open>insertOne(Record)\<close> and
  \<open>upsert(filter={}, patch, {createIfMissing:true})\<close> with merge semantics
  (create-if-absent, else field-level set) against the first record.
\<close>

definition findOne :: "service \<Rightarrow> obj option" where
  "findOne s = (case collection s of [] \<Rightarrow> None | d # ds \<Rightarrow> Some d)"

definition countDocuments :: "service \<Rightarrow> nat" where
  "countDocuments s = length (collection s)"

definition insertOne :: "obj \<Rightarrow> service \<Rightarrow> service" where
  "insertOne d s = s\<lparr>collection := collection s @ [d]\<rparr>"

definition updateOne_set_upsert :: "obj \<Rightarrow> service \<Rightarrow> service" where
  "updateOne_set_upsert patch s =
    (case collection s of
       [] \<Rightarrow> s\<lparr>collection := [assign [] patch]\<rparr>
     | d # ds \<Rightarrow> s\<lparr>collection := assign d patch # ds\<rparr>)"

section \<open>The update validator\<close>

text \<open>The cases of the \<open>switch\<close> that share the string rule, in the order written.\<close>

definition string_fields :: "string list" where
  "string_fields =
    [''language'', ''currency_code'', ''domain'', ''currency_symbol'', ''currency_format'',
     ''thousand_separator'', ''decimal_separator'', ''timezone'', ''date_format'',
     ''time_format'', ''default_shipping_country'', ''default_shipping_state'',
     ''default_shipping_city'', ''default_product_sorting'', ''product_fields'',
     ''weight_unit'', ''length_unit'', ''logo_file'', ''order_confirmation_copy_to'']"

text \<open>The body of the \<open>switch (key)\<close>: the value stored under the key, or the error
  thrown by the \<open>default\<close> branch.\<close>

definition coerce :: "env \<Rightarrow> string \<Rightarrow> jsval \<Rightarrow> error + jsval" where
  "coerce E key v =
    (if key \<in> set string_fields then Inr (getString E v)
     else if key = ''decimal_number'' then Inr (js_or (getNumberIfPositive E v) (JNum 0))
     else if key = ''products_limit'' then Inr (getNumberIfPositive E v)
     else if key = ''hide_billing_address'' then Inr (getBooleanIfValid E v (JBool False))
     else Inl (Error (''Unknown setting: '' @ key)))"

text \<open>The \<open>forEach\<close> over the keys of \<open>this.defaultSettings\<close>; a throw ends it.\<close>

fun forEach_key :: "env \<Rightarrow> obj \<Rightarrow> string list \<Rightarrow> obj \<Rightarrow> error + obj" where
  "forEach_key E data [] settings = Inr settings"
| "forEach_key E data (key # ks) settings =
    (if get data key \<noteq> JUndefined then
       (case coerce E key (get data key) of
          Inl e \<Rightarrow> Inl e
        | Inr v \<Rightarrow> forEach_key E data ks (set_prop settings key v))
     else forEach_key E data ks settings)"

text \<open>What \<open>getValidDocumentForUpdate\<close> returns: the settings object it built, or the
  \<open>Error\<close> object created by \<open>new Error(...)\<close> and handed back with \<open>return\<close>.\<close>

datatype document = ErrorObject string | Settings obj

definition getValidDocumentForUpdate :: "env \<Rightarrow> obj \<Rightarrow> obj \<Rightarrow> error + document" where
  "getValidDocumentForUpdate E defaults data =
    (if length (keys data) = 0 then Inr (ErrorObject ''Required fields are missing'')
     else (case forEach_key E data (keys defaults) [] of
             Inl e \<Rightarrow> Inl e
           | Inr settings \<Rightarrow> Inr (Settings settings)))"

text \<open>The own enumerable properties of the value given to \<open>$set\<close>: an \<open>Error\<close>
  object has none (its \<open>message\<close> and \<open>stack\<close> are not enumerable), so with it
  no field is set. Whether the store accepts or refuses such an update, the collection
  stays as the seeding step left it.\<close>

fun enumerable :: "document \<Rightarrow> obj" where
  "enumerable (ErrorObject m) = []"
| "enumerable (Settings ob) = ob"

section \<open>The read path\<close>

text \<open>
  \<open>changeProperties\<close> calls \<open>Object.assign\<close> with \<open>this.defaultSettings\<close> as the
  target, so \<open>data\<close> is that very object: every write to \<open>data\<close> is a write to the
  field of the service. The state returned holds the object as the function left it,
  also when \<open>url.resolve\<close> throws. The view returned is the value of that object at
  the moment of the return.
\<close>

definition changeProperties ::
  "env \<Rightarrow> obj option \<Rightarrow> service \<Rightarrow> (error + obj) \<times> service" where
  "changeProperties E settingsFromDB s =
    (let data = assign (assign_opt (this_defaultSettings s) settingsFromDB)
                  [(''_id'', JUndefined)];
         data = (if get data ''domain'' = JNull \<or> get data ''domain'' = JUndefined
                 then set_prop data ''domain'' (JStr '''') else data)
     in if nonempty (get data ''logo_file'') then
          (case url_resolve E (get data ''domain'')
                  (filesUploadUrl E @ ''/'' @ to_string E (get data ''logo_file'')) of
             Inl e \<Rightarrow> (Inl e, s\<lparr>this_defaultSettings := data\<rparr>)
           | Inr u \<Rightarrow>
               (Inr (set_prop data ''logo'' u),
                s\<lparr>this_defaultSettings := set_prop data ''logo'' u\<rparr>))
        else
          (Inr (set_prop data ''logo'' JNull),
           s\<lparr>this_defaultSettings := set_prop data ''logo'' JNull\<rparr>))"

definition getSettings :: "env \<Rightarrow> service \<Rightarrow> (error + obj) \<times> service" where
  "getSettings E s = changeProperties E (findOne s) s"

text \<open>The object \<open>data\<close> as the first part of \<open>changeProperties\<close> leaves it, before
  \<open>logo\<close> is computed: the overlay and the \<open>domain\<close> made a string.\<close>

definition overlaid :: "obj \<Rightarrow> obj option \<Rightarrow> obj" where
  "overlaid defaults settingsFromDB =
    (let data = assign (assign_opt defaults settingsFromDB) [(''_id'', JUndefined)]
     in if get data ''domain'' = JNull \<or> get data ''domain'' = JUndefined
        then set_prop data ''domain'' (JStr '''') else data)"

text \<open>
  Modelled from the spec: \<open>findOne() -> Record|null\<close>. The fields of a record that the
  store hands back hold stored values: \<open>null\<close>, booleans, numbers, strings and
  identities. \<open>undefined\<close> and the members of \<open>Object.prototype\<close> are not among them.
\<close>

datatype stored = SNull | SBool bool | SNum real | SNaN | SStr string | SObjectId string

fun js_of :: "stored \<Rightarrow> jsval" where
  "js_of SNull = JNull"
| "js_of (SBool b) = JBool b"
| "js_of (SNum r) = JNum r"
| "js_of SNaN = JNaN"
| "js_of (SStr t) = JStr t"
| "js_of (SObjectId h) = JObjectId h"

definition from_store :: "(string \<times> stored) list option \<Rightarrow> obj option" where
  "from_store r = map_option (map (\<lambda>(k, v). (k, js_of v))) r"

text \<open>The service after it has read the given records one after the other, whether or
  not a read threw. Nothing but \<open>changeProperties\<close> writes \<open>this.defaultSettings\<close>, so
  these are the tables a service can hold.\<close>

fun reads :: "env \<Rightarrow> (string \<times> stored) list option list \<Rightarrow> service \<Rightarrow> service" where
  "reads E [] s = s"
| "reads E (r # rs) s = reads E rs (snd (changeProperties E (from_store r) s))"

text \<open>
  Modelled from the spec: an absolute URL. It starts with a scheme, a letter followed by
  letters, digits, \<open>+\<close>, \<open>-\<close> or \<open>.\<close>, and a colon.
\<close>

definition is_letter :: "char \<Rightarrow> bool" where
  "is_letter c =
    ((65 \<le> (of_char c :: nat) \<and> (of_char c :: nat) \<le> 90)
     \<or> (97 \<le> (of_char c :: nat) \<and> (of_char c :: nat) \<le> 122))"

definition is_scheme_char :: "char \<Rightarrow> bool" where
  "is_scheme_char c =
    (is_letter c \<or> (48 \<le> (of_char c :: nat) \<and> (of_char c :: nat) \<le> 57)
     \<or> c = CHR ''+'' \<or> c = CHR ''-'' \<or> c = CHR ''.'')"

definition is_absolute_url :: "string \<Rightarrow> bool" where
  "is_absolute_url u =
    (case takeWhile (\<lambda>c. c \<noteq> CHR '':'') u of
       [] \<Rightarrow> False
     | c # cs \<Rightarrow> is_letter c \<and> list_all is_scheme_char cs \<and> length (c # cs) < length u)"

section \<open>The write path\<close>

definition insertDefaultSettingsIfEmpty :: "service \<Rightarrow> service" where
  "insertDefaultSettingsIfEmpty s =
    (if countDocuments s = 0 then insertOne (this_defaultSettings s) s else s)"

definition updateSettings :: "env \<Rightarrow> obj \<Rightarrow> service \<Rightarrow> (error + obj) \<times> service" where
  "updateSettings E data s0 =
    (let s = s0\<lparr>update_calls := update_calls s0 @ [data]\<rparr> in
     case getValidDocumentForUpdate E (this_defaultSettings s) data of
       Inl e \<Rightarrow> (Inl e, s)
     | Inr settings \<Rightarrow>
         getSettings E
           (updateOne_set_upsert (enumerable settings) (insertDefaultSettingsIfEmpty s)))"

section \<open>Removing the logo\<close>

text \<open>\<open>fs.unlink(path, callback)\<close>: the file goes away unless it is missing or the
  system refuses; the callback runs in both cases.\<close>

definition unlink :: "env \<Rightarrow> string \<Rightarrow> service \<Rightarrow> service" where
  "unlink E p s =
    s\<lparr>files := (if unlink_fails E p then files s else removeAll p (files s)),
      unlink_calls := unlink_calls s @ [p]\<rparr>"

text \<open>The callback of \<open>fs.unlink\<close> ignores \<open>err\<close> and drops the promise of
  \<open>updateSettings\<close>, so neither outcome reaches the caller of \<open>deleteLogo\<close>.\<close>

definition deleteLogo :: "env \<Rightarrow> service \<Rightarrow> (error + unit) \<times> service" where
  "deleteLogo E s =
    (case getSettings E s of
       (Inl e, s1) \<Rightarrow> (Inl e, s1)
     | (Inr data, s1) \<Rightarrow>
         if nonempty (get data ''logo_file'') then
           (let filePath = resolve_path E
                  (filesUploadPath E @ ''/'' @ to_string E (get data ''logo_file''))
            in (Inr (), snd (updateSettings E [(''logo_file'', JNull)] (unlink E filePath s1))))
         else (Inr (), s1))"

section \<open>An environment for evaluation\<close>

text \<open>
  Modelled from the spec: \<open>lib/parse\<close> and \<open>lib/settings\<close> are not part of the
  sources. The coercion utilities contract is \<open>parseString(any) -> string\<close> (a
  non-string becomes the empty string), \<open>parsePositiveNumber(any) -> number|invalid-sentinel\<close>
  (the sentinel is \<open>null\<close>) and \<open>parseBoolean(any, default) -> boolean\<close>; logo URLs
  are \<open>domain\<close> + fixed upload-path segment + \<open>/\<close> + \<open>logo_file\<close>.
\<close>

definition example_env :: env where
  "example_env =
    \<lparr>getString = (\<lambda>v. case v of JStr t \<Rightarrow> JStr t | _ \<Rightarrow> JStr ''''),
     getNumberIfPositive =
       (\<lambda>v. case v of JNum r \<Rightarrow> if r > 0 then JNum r else JNull | _ \<Rightarrow> JNull),
     getBooleanIfValid = (\<lambda>v d. case v of JBool b \<Rightarrow> JBool b | _ \<Rightarrow> d),
     filesUploadUrl = ''/images'',
     filesUploadPath = ''public/images'',
     resolve_url = (\<lambda>from to. Inr (from @ to)),
     resolve_path = (\<lambda>p. ''/srv/'' @ p),
     number_to_string = (\<lambda>r. ''0''),
     unlink_fails = (\<lambda>p. False)\<rparr>"

section \<open>Objects\<close>

lemma assign_Nil [simp]: "assign t [] = t"
  by (simp add: assign_def)

lemma keys_Nil [simp]: "keys [] = []"
  by (simp add: keys_def)

lemma assign_single: "assign t [(k, v)] = set_prop t k v"
  by (simp add: assign_def)

lemma get_set_prop: "get (set_prop ob k v) k' = (if k' = k then v else get ob k')"
  by (simp add: get_def set_prop_def update_conv')

lemma keys_set_prop:
  "keys (set_prop ob k v) = (if k \<in> set (keys ob) then keys ob else keys ob @ [k])"
  by (simp add: keys_def set_prop_def update_keys)

lemma set_keys_set_prop: "set (keys (set_prop ob k v)) = insert k (set (keys ob))"
  by (auto simp: keys_set_prop)

lemma distinct_set_prop: "distinct (keys ob) \<Longrightarrow> distinct (keys (set_prop ob k v))"
  by (simp add: keys_def set_prop_def distinct_update)

text \<open>Names that are no member of \<open>Object.prototype\<close> are read from the own
  properties alone.\<close>

lemma get_absent:
  "k \<notin> set (keys ob) \<Longrightarrow> k \<notin> set (keys object_prototype) \<Longrightarrow> get ob k = JUndefined"
  using map_of_eq_None_iff [of ob k] by (auto simp: get_def keys_def)

lemma get_present:
  "get ob k \<noteq> JUndefined \<Longrightarrow> k \<notin> set (keys object_prototype) \<Longrightarrow> k \<in> set (keys ob)"
  using get_absent by blast

lemma own_names:
  "''logo_file'' \<notin> set (keys object_prototype)"
  "''products_limit'' \<notin> set (keys object_prototype)"
  "''decimal_number'' \<notin> set (keys object_prototype)"
  "''domain'' \<notin> set (keys object_prototype)"
  "''_id'' \<notin> set (keys object_prototype)"
  "''logo'' \<notin> set (keys object_prototype)"
  by (simp_all add: keys_def object_prototype_def)

text \<open>\<open>Object.assign\<close> step by step: the first property of the source is written, then
  the rest.\<close>

lemma assign_Cons: "assign t ((k, v) # src) = assign (set_prop t k v) src"
  by (simp add: assign_def)

lemma map_of_assign: "map_of (assign t src) = map_of t ++ map_of (rev src)"
proof (induction src arbitrary: t)
  case Nil
  then show ?case by simp
next
  case (Cons a src)
  obtain k v where a: "a = (k, v)" by (cases a)
  show ?case using Cons.IH [of "set_prop t k v"]
    by (simp add: a assign_Cons set_prop_def update_conv' fun_eq_iff map_add_def
        split: option.splits)
qed

lemma map_of_rev_distinct: "distinct (map fst xs) \<Longrightarrow> map_of (rev xs) = map_of xs"
proof (induction xs)
  case Nil
  then show ?case by simp
next
  case (Cons a xs)
  obtain k v where a: "a = (k, v)" by (cases a)
  have "map_of xs k = None" using Cons.prems by (simp add: a map_of_eq_None_iff)
  then show ?case using Cons by (auto simp: a fun_eq_iff map_add_def split: option.splits)
qed

text \<open>Reading an overlay: the source wins on its own keys.\<close>

lemma get_assign:
  assumes "distinct (keys src)"
  shows "get (assign t src) k = (if k \<in> set (keys src) then get src k else get t k)"
proof -
  have r: "map_of (rev src) = map_of src"
    using assms by (simp add: keys_def map_of_rev_distinct)
  show ?thesis
  proof (cases "map_of src k")
    case None
    then have "k \<notin> set (keys src)" by (simp add: map_of_eq_None_iff keys_def)
    then show ?thesis using None by (simp add: get_def map_of_assign r map_add_def)
  next
    case (Some v)
    then have "k \<in> set (keys src)" using map_of_eq_None_iff [of src k] by (simp add: keys_def)
    then show ?thesis using Some by (simp add: get_def map_of_assign r map_add_def)
  qed
qed

lemma distinct_assign: "distinct (keys t) \<Longrightarrow> distinct (keys (assign t src))"
proof (induction src arbitrary: t)
  case Nil
  then show ?case by simp
next
  case (Cons a src)
  obtain k v where a: "a = (k, v)" by (cases a)
  show ?case using Cons.IH [of "set_prop t k v"] Cons.prems
    by (simp add: a assign_Cons distinct_set_prop)
qed

text \<open>A source without \<open>undefined\<close> values cannot make a defined property undefined.\<close>

lemma get_assign_defined:
  "JUndefined \<notin> snd ` set r \<Longrightarrow> get t k \<noteq> JUndefined \<Longrightarrow> get (assign t r) k \<noteq> JUndefined"
proof (induction r arbitrary: t)
  case Nil
  then show ?case by simp
next
  case (Cons a r)
  obtain k' v where a: "a = (k', v)" by (cases a)
  have "get (set_prop t k' v) k \<noteq> JUndefined"
    using Cons.prems by (auto simp: a get_set_prop)
  then show ?case using Cons.IH [of "set_prop t k' v"] Cons.prems
    by (simp add: a assign_Cons)
qed

lemma get_assign_opt_defined:
  assumes "\<forall>r. rec = Some r \<longrightarrow> JUndefined \<notin> snd ` set r" and "get t k \<noteq> JUndefined"
  shows "get (assign_opt t rec) k \<noteq> JUndefined"
  using assms by (cases rec) (simp_all add: get_assign_defined)

text \<open>\<open>url.resolve\<close> returns exactly when its first argument is a string the platform
  accepts, and then a string.\<close>

lemma url_resolve_Inr:
  "url_resolve E v to = Inr w \<longleftrightarrow>
    (\<exists>d u. v = JStr d \<and> resolve_url E d to = Inr u \<and> w = JStr u)"
  by (cases v) (auto split: sum.splits)

section \<open>Facts about the defaults table\<close>

lemma id_not_default: "''_id'' \<notin> set (keys defaultSettings)"
  by (simp add: keys_def defaultSettings_def)

lemma logo_not_default: "''logo'' \<notin> set (keys defaultSettings)"
  by (simp add: keys_def defaultSettings_def)

lemma defaults_complete: "k \<in> set (keys defaultSettings) \<Longrightarrow> get defaultSettings k \<noteq> JUndefined"
  by (auto simp: keys_def defaultSettings_def get_def)

lemma distinct_defaults: "distinct (keys defaultSettings)"
  by (simp add: keys_def defaultSettings_def)

lemma view_of_defaults:
  "set_prop (set_prop defaultSettings ''_id'' JUndefined) ''logo'' JNull
     = defaultSettings @ [(''_id'', JUndefined), (''logo'', JNull)]"
  by (simp add: set_prop_def defaultSettings_def)

lemma get_defaults_domain: "get (set_prop defaultSettings ''_id'' v) ''domain'' = JStr []"
  by (simp add: get_set_prop) (simp add: get_def defaultSettings_def)

lemma get_defaults_logo_file: "get (set_prop defaultSettings ''_id'' v) ''logo_file'' = JNull"
  by (simp add: get_set_prop) (simp add: get_def defaultSettings_def)

text \<open>Every key of the table as constructed has a case in the \<open>switch\<close>.\<close>

lemma coerce_defaults: "k \<in> set (keys defaultSettings) \<Longrightarrow> \<exists>v. coerce E k x = Inr v"
  by (auto simp: keys_def defaultSettings_def coerce_def string_fields_def)

lemma coerce_logo_file: "coerce E ''logo_file'' v = Inr (getString E v)"
  by (simp add: coerce_def string_fields_def)

section \<open>Facts about the update validator\<close>

lemma forEach_key_distinct:
  "forEach_key E data ks acc = Inr p \<Longrightarrow> distinct (keys acc) \<Longrightarrow> distinct (keys p)"
proof (induction ks arbitrary: acc)
  case Nil
  then show ?case by simp
next
  case (Cons key ks)
  then show ?case
    by (auto simp: distinct_set_prop split: if_splits sum.splits)
qed

lemma forEach_key_other:
  "forEach_key E data ks acc = Inr p \<Longrightarrow> k \<notin> set ks \<Longrightarrow> get p k = get acc k"
proof (induction ks arbitrary: acc)
  case Nil
  then show ?case by simp
next
  case (Cons key ks)
  then show ?case
    by (auto simp: get_set_prop split: if_splits sum.splits)
qed

text \<open>A key the loop visits and the input defines ends up with its coerced value.\<close>

lemma forEach_key_get:
  "forEach_key E data ks acc = Inr p \<Longrightarrow> k \<in> set ks \<Longrightarrow> get data k \<noteq> JUndefined \<Longrightarrow>
   coerce E k (get data k) = Inr (get p k)"
proof (induction ks arbitrary: acc)
  case Nil
  then show ?case by simp
next
  case (Cons key ks)
  show ?case
  proof (cases "k \<in> set ks")
    case True
    then show ?thesis using Cons.IH Cons.prems
      by (auto split: if_splits sum.splits)
  next
    case False
    then have k: "key = k" using Cons.prems(2) by simp
    then obtain v where v: "coerce E k (get data k) = Inr v"
      "forEach_key E data ks (set_prop acc k v) = Inr p"
      using Cons.prems by (auto split: sum.splits)
    have "get p k = v"
      using forEach_key_other [OF v(2) False] by (simp add: get_set_prop)
    then show ?thesis using v(1) by simp
  qed
qed

text \<open>When no visited key reaches the \<open>default\<close> branch the loop ends normally, and
  the settings object it leaves is described key by key.\<close>

lemma forEach_key_result:
  assumes "\<And>k. k \<in> set ks \<Longrightarrow> get data k \<noteq> JUndefined \<Longrightarrow> \<exists>v. coerce E k (get data k) = Inr v"
  shows "\<exists>p. forEach_key E data ks acc = Inr p
     \<and> set (keys p) = set (keys acc) \<union> {k \<in> set ks. get data k \<noteq> JUndefined}
     \<and> (\<forall>k. get p k = (if k \<in> set ks \<and> get data k \<noteq> JUndefined
                        then projr (coerce E k (get data k)) else get acc k))
     \<and> (distinct (keys acc) \<longrightarrow> distinct (keys p))"
  using assms
proof (induction ks arbitrary: acc)
  case Nil
  then show ?case by simp
next
  case (Cons key ks)
  have rest: "\<And>k. k \<in> set ks \<Longrightarrow> get data k \<noteq> JUndefined \<Longrightarrow> \<exists>v. coerce E k (get data k) = Inr v"
    using Cons.prems by simp
  show ?case
  proof (cases "get data key \<noteq> JUndefined")
    case False
    then show ?thesis using Cons.IH [OF rest, of acc] by auto
  next
    case True
    then obtain v where v: "coerce E key (get data key) = Inr v"
      using Cons.prems [of key] by auto
    from Cons.IH [OF rest, of "set_prop acc key v"]
    obtain p where p: "forEach_key E data ks (set_prop acc key v) = Inr p"
      "set (keys p) = set (keys (set_prop acc key v)) \<union> {k \<in> set ks. get data k \<noteq> JUndefined}"
      "\<forall>k. get p k = (if k \<in> set ks \<and> get data k \<noteq> JUndefined
                        then projr (coerce E k (get data k)) else get (set_prop acc key v) k)"
      "distinct (keys (set_prop acc key v)) \<longrightarrow> distinct (keys p)"
      by blast
    have "forEach_key E data (key # ks) acc = Inr p"
      using True v p(1) by simp
    moreover have "set (keys p) = set (keys acc) \<union> {k \<in> set (key # ks). get data k \<noteq> JUndefined}"
      using p(2) True by (auto simp: keys_set_prop)
    moreover have "\<forall>k. get p k = (if k \<in> set (key # ks) \<and> get data k \<noteq> JUndefined
                        then projr (coerce E k (get data k)) else get acc k)"
      using p(3) True v by (auto simp: get_set_prop)
    moreover have "distinct (keys acc) \<longrightarrow> distinct (keys p)"
      using p(4) by (simp add: distinct_set_prop)
    ultimately show ?thesis by blast
  qed
qed

lemma getValid_Settings:
  "getValidDocumentForUpdate E d data = Inr (Settings p) \<Longrightarrow>
   data \<noteq> [] \<and> forEach_key E data (keys d) [] = Inr p"
  by (auto simp: getValidDocumentForUpdate_def keys_def split: if_splits sum.splits)

section \<open>Facts about the read path\<close>

text \<open>A read touches \<open>this.defaultSettings\<close> and nothing else of the state.\<close>

lemma changeProperties_frame:
  "collection (snd (changeProperties E r s)) = collection s
   \<and> files (snd (changeProperties E r s)) = files s
   \<and> unlink_calls (snd (changeProperties E r s)) = unlink_calls s
   \<and> update_calls (snd (changeProperties E r s)) = update_calls s"
  by (simp add: changeProperties_def Let_def split: sum.splits)

lemma getSettings_frame:
  "collection (snd (getSettings E s)) = collection s
   \<and> files (snd (getSettings E s)) = files s
   \<and> unlink_calls (snd (getSettings E s)) = unlink_calls s
   \<and> update_calls (snd (getSettings E s)) = update_calls s"
  using changeProperties_frame [of E "findOne s" s] by (simp add: getSettings_def)

lemma changeProperties_fst_cong:
  "this_defaultSettings s = this_defaultSettings s' \<Longrightarrow>
   fst (changeProperties E r s) = fst (changeProperties E r s')"
  by (simp add: changeProperties_def Let_def split: sum.splits)

text \<open>\<open>changeProperties\<close> with the two intermediate states of \<open>data\<close> named.\<close>

lemma changeProperties_run:
  assumes "d0 = set_prop (assign_opt (this_defaultSettings s) rec) ''_id'' JUndefined"
    and "d1 = (if get d0 ''domain'' = JNull \<or> get d0 ''domain'' = JUndefined
               then set_prop d0 ''domain'' (JStr '''') else d0)"
  shows "changeProperties E rec s =
      (if nonempty (get d1 ''logo_file'') then
          (case url_resolve E (get d1 ''domain'')
                  (filesUploadUrl E @ ''/'' @ to_string E (get d1 ''logo_file'')) of
             Inl e \<Rightarrow> (Inl e, s\<lparr>this_defaultSettings := d1\<rparr>)
           | Inr u \<Rightarrow>
               (Inr (set_prop d1 ''logo'' u),
                s\<lparr>this_defaultSettings := set_prop d1 ''logo'' u\<rparr>))
        else
          (Inr (set_prop d1 ''logo'' JNull),
           s\<lparr>this_defaultSettings := set_prop d1 ''logo'' JNull\<rparr>))"
  unfolding assms by (simp add: changeProperties_def Let_def assign_single)

section \<open>Facts about the write path\<close>

lemma repository_frame:
  "files (updateOne_set_upsert p (insertDefaultSettingsIfEmpty s)) = files s
   \<and> unlink_calls (updateOne_set_upsert p (insertDefaultSettingsIfEmpty s)) = unlink_calls s
   \<and> update_calls (updateOne_set_upsert p (insertDefaultSettingsIfEmpty s)) = update_calls s"
  by (cases "collection s")
    (simp_all add: updateOne_set_upsert_def insertDefaultSettingsIfEmpty_def
      countDocuments_def insertOne_def)

lemma updateSettings_frame:
  "files (snd (updateSettings E data s)) = files s
   \<and> unlink_calls (snd (updateSettings E data s)) = unlink_calls s
   \<and> update_calls (snd (updateSettings E data s)) = update_calls s @ [data]"
proof (cases "getValidDocumentForUpdate E (this_defaultSettings s) data")
  case (Inl e)
  then show ?thesis by (simp add: updateSettings_def Let_def)
next
  case (Inr doc)
  let ?s = "s\<lparr>update_calls := update_calls s @ [data]\<rparr>"
  have "updateSettings E data s
      = getSettings E (updateOne_set_upsert (enumerable doc) (insertDefaultSettingsIfEmpty ?s))"
    using Inr by (simp add: updateSettings_def Let_def)
  then show ?thesis
    using getSettings_frame
        [of E "updateOne_set_upsert (enumerable doc) (insertDefaultSettingsIfEmpty ?s)"]
      repository_frame [of "enumerable doc" ?s]
    by simp
qed

text \<open>What an update with a validated patch leaves in the collection and returns.\<close>

lemma updateSettings_patch:
  assumes "getValidDocumentForUpdate E (this_defaultSettings s) data = Inr (Settings patch)"
    and "prior = (if countDocuments s = 0 then this_defaultSettings s else hd (collection s))"
  shows "distinct (keys patch)"
    and "collection (snd (updateSettings E data s)) = assign prior patch # tl (collection s)"
    and "fst (updateSettings E data s) = fst (changeProperties E (Some (assign prior patch)) s)"
proof -
  let ?s = "s\<lparr>update_calls := update_calls s @ [data]\<rparr>"
  let ?s2 = "updateOne_set_upsert patch (insertDefaultSettingsIfEmpty ?s)"
  show "distinct (keys patch)"
    using getValid_Settings [OF assms(1)] forEach_key_distinct [of E data _ "[]" patch] by auto
  have upd: "updateSettings E data s = getSettings E ?s2"
    using assms(1) by (simp add: updateSettings_def Let_def)
  have coll: "collection ?s2 = assign prior patch # tl (collection s)"
    unfolding assms(2)
    by (cases "collection s")
      (simp_all add: updateOne_set_upsert_def insertDefaultSettingsIfEmpty_def
        countDocuments_def insertOne_def)
  have dflt: "this_defaultSettings ?s2 = this_defaultSettings s"
    by (cases "collection s")
      (simp_all add: updateOne_set_upsert_def insertDefaultSettingsIfEmpty_def
        countDocuments_def insertOne_def)
  show "collection (snd (updateSettings E data s)) = assign prior patch # tl (collection s)"
    using upd coll getSettings_frame [of E ?s2] by simp
  have "findOne ?s2 = Some (assign prior patch)"
    using coll by (simp add: findOne_def)
  then show "fst (updateSettings E data s) = fst (changeProperties E (Some (assign prior patch)) s)"
    using upd dflt changeProperties_fst_cong [of ?s2 s E] by (simp add: getSettings_def)
qed

lemma persisted_logo_file:
  assumes v: "getValidDocumentForUpdate E (this_defaultSettings s) data = Inr (Settings patch)"
    and present: "get data ''logo_file'' \<noteq> JUndefined"
    and key: "''logo_file'' \<in> set (keys (this_defaultSettings s))"
    and str: "getString E (get data ''logo_file'') \<noteq> JUndefined"
    and prior: "prior = (if countDocuments s = 0 then this_defaultSettings s else hd (collection s))"
  shows "get (assign prior patch) ''logo_file'' = getString E (get data ''logo_file'')"
proof -
  have "coerce E ''logo_file'' (get data ''logo_file'') = Inr (get patch ''logo_file'')"
    using forEach_key_get [of E data "keys (this_defaultSettings s)" "[]" patch "''logo_file''"]
      getValid_Settings [OF v] key present by simp
  then have p: "get patch ''logo_file'' = getString E (get data ''logo_file'')"
    by (simp add: coerce_logo_file)
  then have "''logo_file'' \<in> set (keys patch)"
    using str get_present [of patch "''logo_file''"] own_names(1) by simp
  then show ?thesis
    using get_assign [OF updateSettings_patch(1) [OF v prior], of prior "''logo_file''"] p by simp
qed

section \<open>Facts about the overlay and about repeated reads\<close>

lemma js_of_defined: "js_of v \<noteq> JUndefined"
  by (cases v) simp_all

lemma from_store_defined:
  assumes "from_store r = Some doc"
  shows "JUndefined \<notin> snd ` set doc"
proof
  assume "JUndefined \<in> snd ` set doc"
  then obtain k where "(k, JUndefined) \<in> set doc" by force
  moreover obtain a where "doc = map (\<lambda>(k, v). (k, js_of v)) a"
    using assms by (cases r) (auto simp: from_store_def)
  ultimately obtain v where "JUndefined = js_of v" by auto
  then show False using js_of_defined [of v] by simp
qed

lemma get_overlaid_id: "get (overlaid t rec) ''_id'' = JUndefined"
  by (simp add: overlaid_def Let_def assign_single get_set_prop)

lemma get_overlaid_domain:
  "get (overlaid t rec) ''domain'' =
    (if get (assign_opt t rec) ''domain'' = JNull \<or> get (assign_opt t rec) ''domain'' = JUndefined
     then JStr '''' else get (assign_opt t rec) ''domain'')"
  by (simp add: overlaid_def Let_def assign_single get_set_prop)

lemma get_overlaid_other:
  "k \<noteq> ''_id'' \<Longrightarrow> k \<noteq> ''domain'' \<Longrightarrow> get (overlaid t rec) k = get (assign_opt t rec) k"
  by (simp add: overlaid_def Let_def assign_single get_set_prop)

lemma overlaid_alt:
  "overlaid t rec =
    (if get (set_prop (assign_opt t rec) ''_id'' JUndefined) ''domain'' = JNull
        \<or> get (set_prop (assign_opt t rec) ''_id'' JUndefined) ''domain'' = JUndefined
     then set_prop (set_prop (assign_opt t rec) ''_id'' JUndefined) ''domain'' (JStr '''')
     else set_prop (assign_opt t rec) ''_id'' JUndefined)"
  by (simp add: overlaid_def Let_def assign_single)

text \<open>\<open>changeProperties\<close> read through \<open>overlaid\<close>.\<close>

lemma changeProperties_overlaid:
  assumes "data = overlaid (this_defaultSettings s) rec"
  shows "changeProperties E rec s =
      (if nonempty (get data ''logo_file'') then
          (case url_resolve E (get data ''domain'')
                  (filesUploadUrl E @ ''/'' @ to_string E (get data ''logo_file'')) of
             Inl e \<Rightarrow> (Inl e, s\<lparr>this_defaultSettings := data\<rparr>)
           | Inr u \<Rightarrow>
               (Inr (set_prop data ''logo'' u),
                s\<lparr>this_defaultSettings := set_prop data ''logo'' u\<rparr>))
        else
          (Inr (set_prop data ''logo'' JNull),
           s\<lparr>this_defaultSettings := set_prop data ''logo'' JNull\<rparr>))"
  unfolding assms overlaid_alt by (rule changeProperties_run [OF refl refl])

text \<open>A table that defines every default key still does so after the overlay of a
  record from the store, and after the whole read.\<close>

lemma overlaid_complete:
  assumes "\<forall>k \<in> set (keys defaultSettings). get t k \<noteq> JUndefined"
  shows "\<forall>k \<in> set (keys defaultSettings). get (overlaid t (from_store r)) k \<noteq> JUndefined"
proof
  fix k assume k: "k \<in> set (keys defaultSettings)"
  have "\<forall>doc. from_store r = Some doc \<longrightarrow> JUndefined \<notin> snd ` set doc"
    using from_store_defined by blast
  then have m: "get (assign_opt t (from_store r)) k \<noteq> JUndefined"
    using get_assign_opt_defined [of "from_store r" t k] assms k by blast
  have "k \<noteq> ''_id''" using k id_not_default by auto
  then show "get (overlaid t (from_store r)) k \<noteq> JUndefined"
    using m by (cases "k = ''domain''") (simp_all add: get_overlaid_domain get_overlaid_other)
qed

lemma read_complete:
  assumes "\<forall>k \<in> set (keys defaultSettings). get (this_defaultSettings s) k \<noteq> JUndefined"
  shows "\<forall>k \<in> set (keys defaultSettings).
           get (this_defaultSettings (snd (changeProperties E (from_store r) s))) k \<noteq> JUndefined"
proof
  fix k assume k: "k \<in> set (keys defaultSettings)"
  define data where "data = overlaid (this_defaultSettings s) (from_store r)"
  have d: "get data k \<noteq> JUndefined"
    using overlaid_complete [OF assms, of r] k by (simp add: data_def)
  have l: "k \<noteq> ''logo''" using k logo_not_default by auto
  show "get (this_defaultSettings (snd (changeProperties E (from_store r) s))) k \<noteq> JUndefined"
    using d l
    by (simp add: changeProperties_overlaid [OF data_def] get_set_prop split: sum.splits)
qed

lemma reads_complete:
  "\<forall>k \<in> set (keys defaultSettings). get (this_defaultSettings s) k \<noteq> JUndefined \<Longrightarrow>
   \<forall>k \<in> set (keys defaultSettings). get (this_defaultSettings (reads E rs s)) k \<noteq> JUndefined"
proof (induction rs arbitrary: s)
  case Nil
  then show ?case by simp
next
  case (Cons r rs)
  show ?case using Cons.IH [OF read_complete [OF Cons.prems]] by simp
qed

lemma constructor_complete:
  "\<forall>k \<in> set (keys defaultSettings). get (this_defaultSettings (constructor docs fs)) k \<noteq> JUndefined"
  using defaults_complete by (simp add: constructor_def)

text \<open>One read of an absent record by a fresh service.\<close>

lemma read_absent_fresh:
  "changeProperties E None (constructor docs fs) =
    (Inr (defaultSettings @ [(''_id'', JUndefined), (''logo'', JNull)]),
     (constructor docs fs)\<lparr>this_defaultSettings :=
        defaultSettings @ [(''_id'', JUndefined), (''logo'', JNull)]\<rparr>)"
  by (simp add: constructor_def changeProperties_def Let_def
      assign_single get_defaults_domain get_defaults_logo_file nonempty_def
      view_of_defaults)

lemma defaults_values:
  "get defaultSettings ''domain'' = JStr []"
  "get defaultSettings ''logo_file'' = JNull"
  "get defaultSettings ''currency_code'' = JStr ''USD''"
  by (simp_all add: get_def defaultSettings_def)

section \<open>Empty input\<close>

text \<open>
  C1. For an input with zero keys the validator should fail and nothing should be
  written. The code creates the \<open>Error\<close> but returns it instead of throwing it:
  \<open>getValidDocumentForUpdate\<close> ends normally with the \<open>Error\<close> object as its
  value, and \<open>updateSettings\<close> goes on to seed an empty collection with the defaults.
\<close>

theorem C1_empty_input_is_returned_not_thrown:
  "getValidDocumentForUpdate E defaults [] = Inr (ErrorObject ''Required fields are missing'')
   \<and> collection (snd (updateSettings E [] (constructor [] fs))) = [defaultSettings]"
  by (simp add: getValidDocumentForUpdate_def keys_def updateSettings_def constructor_def
      insertDefaultSettingsIfEmpty_def countDocuments_def insertOne_def updateOne_set_upsert_def
      getSettings_def changeProperties_def Let_def split: sum.splits)

section \<open>The defaults table under reads\<close>

text \<open>
  C2. A read should leave the defaults table as the constructor made it. The code
  overlays the persisted record onto the table itself: after one read of a record
  holding \<open>currency_code: 'EUR'\<close> the table maps \<open>currency_code\<close> to \<open>'EUR'\<close>
  and has the two extra keys \<open>_id\<close> and \<open>logo\<close>.
\<close>

theorem C2_read_overwrites_defaults_table:
  "get (this_defaultSettings (snd (getSettings E
          (constructor [[(''currency_code'', JStr ''EUR'')]] fs)))) ''currency_code'' = JStr ''EUR''
   \<and> keys (this_defaultSettings (snd (getSettings E
          (constructor [[(''currency_code'', JStr ''EUR'')]] fs))))
       = keys defaultSettings @ [''_id'', ''logo'']"
  by (simp add: getSettings_def findOne_def constructor_def changeProperties_def Let_def
      assign_def set_prop_def defaultSettings_def get_def nonempty_def keys_def)

section \<open>Updating\<close>

text \<open>
  C3. With a count of zero \<open>updateSettings\<close> should insert the defaults table as the
  constructor made it. It inserts \<open>this.defaultSettings\<close>, the object every read writes
  on: after one read of the still empty collection the table inserted has the two extra
  entries \<open>_id: undefined\<close> and \<open>logo: null\<close>, and the record that the update
  \<open>{currency_code: 'EUR'}\<close> leaves has these two keys after the keys of the defaults.
\<close>

theorem C3_seed_after_a_read_is_not_the_defaults_table:
  "collection (insertDefaultSettingsIfEmpty (snd (getSettings E (constructor [] fs))))
     = [defaultSettings @ [(''_id'', JUndefined), (''logo'', JNull)]]
   \<and> keys (hd (collection (snd (updateSettings E [(''currency_code'', JStr ''EUR'')]
        (snd (getSettings E (constructor [] fs)))))))
     = keys defaultSettings @ [''_id'', ''logo'']"
proof -
  let ?t = "defaultSettings @ [(''_id'', JUndefined), (''logo'', JNull)]"
  let ?data = "[(''currency_code'', JStr ''EUR'')]"
  define s1 where "s1 = snd (getSettings E (constructor [] fs))"
  have s1: "s1 = (constructor [] fs)\<lparr>this_defaultSettings := ?t\<rparr>"
    using read_absent_fresh [of E "[]" fs]
    by (simp add: s1_def getSettings_def findOne_def constructor_def)
  have c: "countDocuments s1 = 0" "this_defaultSettings s1 = ?t" "collection s1 = []"
    by (simp_all add: s1 countDocuments_def constructor_def)
  have 1: "collection (insertDefaultSettingsIfEmpty s1) = [?t]"
    using c by (simp add: insertDefaultSettingsIfEmpty_def insertOne_def)
  have v: "getValidDocumentForUpdate E (this_defaultSettings s1) ?data
      = Inr (Settings [(''currency_code'', getString E (JStr ''EUR''))])"
    by (simp add: c(2) getValidDocumentForUpdate_def keys_def defaultSettings_def get_def
        object_prototype_def coerce_def string_fields_def set_prop_def)
  have "collection (snd (updateSettings E ?data s1))
      = [set_prop ?t ''currency_code'' (getString E (JStr ''EUR''))]"
    using updateSettings_patch(2) [OF v refl] c by (simp add: assign_single)
  moreover have "''currency_code'' \<in> set (keys ?t)"
    by (simp add: keys_def defaultSettings_def)
  ultimately have 2: "keys (hd (collection (snd (updateSettings E ?data s1))))
      = keys defaultSettings @ [''_id'', ''logo'']"
    by (simp add: keys_set_prop) (simp add: keys_def)
  from 1 2 show ?thesis unfolding s1_def by blast
qed

section \<open>The view\<close>

text \<open>
  C4, as the code has it. Take a service after any earlier reads, and any record from the
  store. If \<open>logo_file\<close> of the overlay is a non-empty string, let \<open>domain\<close> be a
  string that \<open>url.resolve\<close> accepts. Then \<open>changeProperties\<close>, and so
  \<open>getSettings\<close>, returns a view in which every key of the defaults table has a value
  other than \<open>undefined\<close>, the read of \<open>_id\<close> gives \<open>undefined\<close>, and
  \<open>logo\<close> is a string or \<open>null\<close>. In the one case left out the call throws and
  returns no view.
\<close>

theorem C4_view_is_complete:
  "((nonempty (get (overlaid (this_defaultSettings (reads E earlier (constructor docs fs)))
                      (from_store r)) ''logo_file'') \<longrightarrow>
      (\<exists>d u. get (overlaid (this_defaultSettings (reads E earlier (constructor docs fs)))
                      (from_store r)) ''domain'' = JStr d
         \<and> resolve_url E d
              (filesUploadUrl E @ ''/'' @ to_string E
                (get (overlaid (this_defaultSettings (reads E earlier (constructor docs fs)))
                      (from_store r)) ''logo_file'')) = Inr u))
    \<longrightarrow> (\<exists>view. fst (changeProperties E (from_store r) (reads E earlier (constructor docs fs)))
                  = Inr view
           \<and> (\<forall>k \<in> set (keys defaultSettings). get view k \<noteq> JUndefined)
           \<and> get view ''_id'' = JUndefined
           \<and> (get view ''logo'' = JNull \<or> (\<exists>t. get view ''logo'' = JStr t))))
   \<and> (\<not> (nonempty (get (overlaid (this_defaultSettings (reads E earlier (constructor docs fs)))
                      (from_store r)) ''logo_file'') \<longrightarrow>
      (\<exists>d u. get (overlaid (this_defaultSettings (reads E earlier (constructor docs fs)))
                      (from_store r)) ''domain'' = JStr d
         \<and> resolve_url E d
              (filesUploadUrl E @ ''/'' @ to_string E
                (get (overlaid (this_defaultSettings (reads E earlier (constructor docs fs)))
                      (from_store r)) ''logo_file'')) = Inr u))
    \<longrightarrow> (\<exists>e. fst (changeProperties E (from_store r) (reads E earlier (constructor docs fs)))
               = Inl e))"
proof -
  define s where "s = reads E earlier (constructor docs fs)"
  define data where "data = overlaid (this_defaultSettings s) (from_store r)"
  define path where "path = filesUploadUrl E @ ''/'' @ to_string E (get data ''logo_file'')"
  have complete: "\<forall>k \<in> set (keys defaultSettings). get (this_defaultSettings s) k \<noteq> JUndefined"
    unfolding s_def by (rule reads_complete [OF constructor_complete])
  have d: "\<forall>k \<in> set (keys defaultSettings). get data k \<noteq> JUndefined"
    unfolding data_def by (rule overlaid_complete [OF complete])
  have id: "get data ''_id'' = JUndefined"
    by (simp add: data_def get_overlaid_id)
  note run = changeProperties_overlaid [OF data_def, of E, folded path_def]
  have view: "(\<forall>k \<in> set (keys defaultSettings). get (set_prop data ''logo'' w) k \<noteq> JUndefined)
      \<and> get (set_prop data ''logo'' w) ''_id'' = JUndefined" for w
    using d id logo_not_default by (auto simp: get_set_prop)
  have a: "\<exists>view. fst (changeProperties E (from_store r) s) = Inr view
           \<and> (\<forall>k \<in> set (keys defaultSettings). get view k \<noteq> JUndefined)
           \<and> get view ''_id'' = JUndefined
           \<and> (get view ''logo'' = JNull \<or> (\<exists>t. get view ''logo'' = JStr t))"
    if ok: "nonempty (get data ''logo_file'') \<longrightarrow>
      (\<exists>d u. get data ''domain'' = JStr d \<and> resolve_url E d path = Inr u)"
  proof (cases "nonempty (get data ''logo_file'')")
    case True
    then obtain dm u where u: "get data ''domain'' = JStr dm" "resolve_url E dm path = Inr u"
      using ok by blast
    have "fst (changeProperties E (from_store r) s) = Inr (set_prop data ''logo'' (JStr u))"
      using True u by (simp add: run)
    moreover have "get (set_prop data ''logo'' (JStr u)) ''logo'' = JStr u"
      by (simp add: get_set_prop)
    ultimately show ?thesis using view [of "JStr u"] by blast
  next
    case False
    then have "fst (changeProperties E (from_store r) s) = Inr (set_prop data ''logo'' JNull)"
      by (simp add: run)
    moreover have "get (set_prop data ''logo'' JNull) ''logo'' = JNull"
      by (simp add: get_set_prop)
    ultimately show ?thesis using view [of JNull] by blast
  qed
  have b: "\<exists>e. fst (changeProperties E (from_store r) s) = Inl e"
    if bad: "\<not> (nonempty (get data ''logo_file'') \<longrightarrow>
      (\<exists>d u. get data ''domain'' = JStr d \<and> resolve_url E d path = Inr u))"
  proof -
    have ne: "nonempty (get data ''logo_file'')" using bad by blast
    have "\<nexists>w. url_resolve E (get data ''domain'') path = Inr w"
      using bad by (auto simp: url_resolve_Inr)
    then obtain e where "url_resolve E (get data ''domain'') path = Inl e"
      by (cases "url_resolve E (get data ''domain'') path") auto
    then show ?thesis using ne by (simp add: run)
  qed
  from a b show ?thesis unfolding path_def data_def s_def by blast
qed

text \<open>A service that has read an absent record, then a record with an identity, the
  domain \<open>http://shop.test\<close> and the logo file \<open>x.png\<close>.\<close>

theorem C4_view_is_complete_witness:
  "\<exists>view. fst (changeProperties example_env
        (from_store (Some [(''_id'', SObjectId ''a1''), (''domain'', SStr ''http://shop.test''),
                           (''logo_file'', SStr ''x.png'')]))
        (reads example_env [None] (constructor [] []))) = Inr view
     \<and> (\<forall>k \<in> set (keys defaultSettings). get view k \<noteq> JUndefined)
     \<and> get view ''_id'' = JUndefined
     \<and> (get view ''logo'' = JNull \<or> (\<exists>t. get view ''logo'' = JStr t))"
proof -
  let ?r = "Some [(''_id'', SObjectId ''a1''), (''domain'', SStr ''http://shop.test''),
                  (''logo_file'', SStr ''x.png'')]"
  let ?t = "this_defaultSettings (reads example_env [None] (constructor [] []))"
  let ?doc = "[(''_id'', JObjectId ''a1''), (''domain'', JStr ''http://shop.test''),
               (''logo_file'', JStr ''x.png'')]"
  have r: "from_store ?r = Some ?doc"
    by (simp add: from_store_def)
  have dist: "distinct (keys ?doc)"
    by (simp add: keys_def)
  have dom: "get (overlaid ?t (from_store ?r)) ''domain'' = JStr ''http://shop.test''"
    by (simp add: r get_overlaid_domain get_assign [OF dist]) (simp add: keys_def get_def)
  have res: "resolve_url example_env ''http://shop.test'' p = Inr (''http://shop.test'' @ p)" for p
    by (simp add: example_env_def)
  have ok: "nonempty (get (overlaid ?t (from_store ?r)) ''logo_file'') \<longrightarrow>
      (\<exists>d u. get (overlaid ?t (from_store ?r)) ''domain'' = JStr d
         \<and> resolve_url example_env d
              (filesUploadUrl example_env @ ''/'' @ to_string example_env
                (get (overlaid ?t (from_store ?r)) ''logo_file'')) = Inr u)"
    using dom res by blast
  from C4_view_is_complete [where E = example_env and earlier = "[None]" and docs = "[]"
      and fs = "[]" and r = ?r] ok
  show ?thesis by blast
qed

text \<open>As the claim is stated it fails over a record whose \<open>domain\<close> is the number 5
  and whose \<open>logo_file\<close> is \<open>'x.png'\<close>: \<open>url.resolve\<close> throws and no view is
  returned.\<close>

theorem C4_view_is_complete_counterexample:
  "fst (getSettings example_env
        (constructor [[(''_id'', JObjectId ''a1''), (''domain'', JNum 5),
                       (''logo_file'', JStr ''x.png'')]] []))
     = Inl (TypeError ''ERR_INVALID_ARG_TYPE'')"
  by (simp add: getSettings_def findOne_def constructor_def changeProperties_def Let_def
      assign_single assign_Cons get_set_prop nonempty_def)

text \<open>
  C5. For an absent record the view should be the defaults table plus \<open>logo: null\<close> and
  nothing else. The overlay \<open>{_id: undefined}\<close>, meant to take the identity away, leaves
  the own key \<open>_id\<close> in the view: a fresh service returns the entries of the defaults
  table followed by \<open>_id: undefined\<close> and \<open>logo: null\<close>. And the view is built on the
  table as earlier reads have left it: after a read of the record
  \<open>{currency_code: 'EUR'}\<close> the view of an absent record has the currency \<open>'EUR'\<close>,
  where the defaults table has \<open>'USD'\<close>.
\<close>

theorem C5_view_of_absent_record_is_not_the_defaults:
  "fst (getSettings E (constructor [] fs))
     = Inr (defaultSettings @ [(''_id'', JUndefined), (''logo'', JNull)])
   \<and> ''_id'' \<in> set (keys (defaultSettings @ [(''_id'', JUndefined), (''logo'', JNull)]))
   \<and> map_sum id (\<lambda>view. get view ''currency_code'')
        (fst (changeProperties E None
           (snd (changeProperties E (Some [(''currency_code'', JStr ''EUR'')])
              (constructor [] fs)))))
     = Inr (JStr ''EUR'')
   \<and> get defaultSettings ''currency_code'' = JStr ''USD''"
proof -
  have 1: "fst (getSettings E (constructor [] fs))
     = Inr (defaultSettings @ [(''_id'', JUndefined), (''logo'', JNull)])"
    using read_absent_fresh [of E "[]" fs]
    by (simp add: getSettings_def findOne_def constructor_def)
  have 2: "''_id'' \<in> set (keys (defaultSettings @ [(''_id'', JUndefined), (''logo'', JNull)]))"
    by (simp add: keys_def)
  have 3: "map_sum id (\<lambda>view. get view ''currency_code'')
        (fst (changeProperties E None
           (snd (changeProperties E (Some [(''currency_code'', JStr ''EUR'')])
              (constructor [] fs)))))
     = Inr (JStr ''EUR'')"
    by (simp add: changeProperties_def Let_def constructor_def assign_single get_set_prop
        nonempty_def defaults_values)
  from 1 2 3 defaults_values(3) show ?thesis by blast
qed

text \<open>
  C6, as the code has it. In every view \<open>changeProperties\<close> returns: when
  \<open>logo_file\<close> is a non-empty string, \<open>domain\<close> is a string and \<open>logo\<close> is what
  \<open>url.resolve\<close> gives for that domain and the upload URL, a slash and the file name;
  when \<open>logo_file\<close> is absent, \<open>null\<close> or empty, \<open>logo\<close> is \<open>null\<close>. Nothing
  is said on whether that URL is absolute.
\<close>

theorem C6_logo_is_resolved_url:
  assumes "fst (changeProperties E rec s) = Inr view"
  shows "(\<forall>f. get view ''logo_file'' = JStr f \<and> f \<noteq> [] \<longrightarrow>
            (\<exists>d u. get view ''domain'' = JStr d
               \<and> resolve_url E d (filesUploadUrl E @ ''/'' @ f) = Inr u
               \<and> get view ''logo'' = JStr u))
       \<and> (get view ''logo_file'' = JUndefined \<or> get view ''logo_file'' = JNull
            \<or> get view ''logo_file'' = JStr '''' \<longrightarrow> get view ''logo'' = JNull)"
proof -
  define data where "data = overlaid (this_defaultSettings s) rec"
  note run = changeProperties_overlaid [OF data_def, of E]
  show ?thesis
  proof (cases "nonempty (get data ''logo_file'')")
    case True
    then obtain w where w: "url_resolve E (get data ''domain'')
        (filesUploadUrl E @ ''/'' @ to_string E (get data ''logo_file'')) = Inr w"
      "view = set_prop data ''logo'' w"
      using assms by (auto simp: run split: sum.splits)
    from w(1) obtain d u where u: "get data ''domain'' = JStr d"
      "resolve_url E d (filesUploadUrl E @ ''/'' @ to_string E (get data ''logo_file'')) = Inr u"
      "w = JStr u"
      by (auto simp: url_resolve_Inr)
    have "get view ''logo_file'' = get data ''logo_file''" "get view ''domain'' = JStr d"
      "get view ''logo'' = JStr u"
      using u w(2) by (simp_all add: get_set_prop)
    then show ?thesis using True u(2) by (auto simp: nonempty_def)
  next
    case False
    then have v: "view = set_prop data ''logo'' JNull"
      using assms by (simp add: run)
    have "get view ''logo_file'' = get data ''logo_file''" "get view ''logo'' = JNull"
      by (simp_all add: v get_set_prop)
    then show ?thesis using False by (auto simp: nonempty_def)
  qed
qed

text \<open>The record \<open>{domain: 'http://shop.test', logo_file: 'x.png'}\<close> and an absent
  record, each read by a fresh service.\<close>

theorem C6_logo_is_resolved_url_witness:
  "fst (changeProperties example_env
          (Some [(''domain'', JStr ''http://shop.test''), (''logo_file'', JStr ''x.png'')])
          (constructor [] []))
     = Inr (set_prop (set_prop (set_prop (set_prop defaultSettings
              ''domain'' (JStr ''http://shop.test'')) ''logo_file'' (JStr ''x.png''))
              ''_id'' JUndefined) ''logo'' (JStr ''http://shop.test/images/x.png''))
   \<and> (\<exists>d u. get (set_prop (set_prop (set_prop (set_prop defaultSettings
              ''domain'' (JStr ''http://shop.test'')) ''logo_file'' (JStr ''x.png''))
              ''_id'' JUndefined) ''logo'' (JStr ''http://shop.test/images/x.png'')) ''domain''
            = JStr d
        \<and> resolve_url example_env d (filesUploadUrl example_env @ ''/'' @ ''x.png'') = Inr u
        \<and> get (set_prop (set_prop (set_prop (set_prop defaultSettings
              ''domain'' (JStr ''http://shop.test'')) ''logo_file'' (JStr ''x.png''))
              ''_id'' JUndefined) ''logo'' (JStr ''http://shop.test/images/x.png'')) ''logo''
            = JStr u)
   \<and> is_absolute_url ''http://shop.test/images/x.png''
   \<and> fst (changeProperties example_env None (constructor [] []))
     = Inr (defaultSettings @ [(''_id'', JUndefined), (''logo'', JNull)])
   \<and> get (defaultSettings @ [(''_id'', JUndefined), (''logo'', JNull)]) ''logo'' = JNull"
proof -
  let ?view = "set_prop (set_prop (set_prop (set_prop defaultSettings
              ''domain'' (JStr ''http://shop.test'')) ''logo_file'' (JStr ''x.png''))
              ''_id'' JUndefined) ''logo'' (JStr ''http://shop.test/images/x.png'')"
  have h: "fst (changeProperties example_env
          (Some [(''domain'', JStr ''http://shop.test''), (''logo_file'', JStr ''x.png'')])
          (constructor [] [])) = Inr ?view"
    by (simp add: constructor_def changeProperties_def Let_def assign_single assign_Cons
        get_set_prop nonempty_def example_env_def)
  have f: "get ?view ''logo_file'' = JStr ''x.png'' \<and> ''x.png'' \<noteq> []"
    by (simp add: get_set_prop)
  have a: "is_absolute_url ''http://shop.test/images/x.png''"
    by (simp add: is_absolute_url_def is_letter_def is_scheme_char_def)
  let ?none = "defaultSettings @ [(''_id'', JUndefined), (''logo'', JNull)]"
  have h2: "fst (changeProperties example_env None (constructor [] [])) = Inr ?none"
    by (simp add: read_absent_fresh)
  have f2: "get ?none ''logo_file'' = JNull"
    by (simp add: get_def defaultSettings_def)
  have "get ?none ''logo'' = JNull"
    using C6_logo_is_resolved_url [OF h2] f2 by blast
  then show ?thesis
    using C6_logo_is_resolved_url [OF h] f h h2 a by blast
qed

text \<open>As the claim is stated it fails at the domain the defaults table itself gives, the
  empty string: for the record \<open>{logo_file: 'x.png'}\<close> the logo is a path, which is no
  absolute URL.\<close>

theorem C6_logo_is_resolved_url_counterexample:
  "fst (changeProperties example_env (Some [(''logo_file'', JStr ''x.png'')]) (constructor [] []))
     = Inr (set_prop (set_prop (set_prop defaultSettings ''logo_file'' (JStr ''x.png''))
              ''_id'' JUndefined) ''logo'' (JStr ''/images/x.png''))
   \<and> get (set_prop (set_prop (set_prop defaultSettings ''logo_file'' (JStr ''x.png''))
              ''_id'' JUndefined) ''logo'' (JStr ''/images/x.png'')) ''logo''
       = JStr ''/images/x.png''
   \<and> \<not> is_absolute_url ''/images/x.png''"
proof -
  have dom: "get (set_prop (set_prop defaultSettings ''logo_file'' (JStr ''x.png''))
              ''_id'' JUndefined) ''domain'' = JStr ''''"
    by (simp add: get_set_prop defaults_values)
  have 1: "fst (changeProperties example_env (Some [(''logo_file'', JStr ''x.png'')])
        (constructor [] []))
     = Inr (set_prop (set_prop (set_prop defaultSettings ''logo_file'' (JStr ''x.png''))
              ''_id'' JUndefined) ''logo'' (JStr ''/images/x.png''))"
    by (simp add: constructor_def changeProperties_def Let_def assign_single dom)
      (simp add: get_set_prop nonempty_def example_env_def)
  have 2: "get (set_prop (set_prop (set_prop defaultSettings ''logo_file'' (JStr ''x.png''))
              ''_id'' JUndefined) ''logo'' (JStr ''/images/x.png'')) ''logo''
       = JStr ''/images/x.png''"
    by (simp add: get_set_prop)
  have 3: "\<not> is_absolute_url ''/images/x.png''"
    by (simp add: is_absolute_url_def is_letter_def)
  from 1 2 3 show ?thesis by blast
qed

section \<open>The patch\<close>

text \<open>
  C7. A key of the input that is not in the defaults table should be ignored without an
  error. The validator walks \<open>this.defaultSettings\<close>, the object to which every read
  adds the keys \<open>_id\<close> and \<open>logo\<close>: for the input \<open>{logo: 'x'}\<close> the table as
  constructed gives the empty patch, and the table of a service that has read once
  refuses the same input with \<open>Unknown setting: logo\<close>.
\<close>

theorem C7_unknown_key_throws_after_a_read:
  "getValidDocumentForUpdate E defaultSettings [(''logo'', JStr ''x'')] = Inr (Settings [])
   \<and> getValidDocumentForUpdate E
        (this_defaultSettings (snd (getSettings E (constructor [] fs))))
        [(''logo'', JStr ''x'')]
     = Inl (Error ''Unknown setting: logo'')"
proof -
  have 1: "getValidDocumentForUpdate E defaultSettings [(''logo'', JStr ''x'')]
      = Inr (Settings [])"
    by (simp add: getValidDocumentForUpdate_def keys_def defaultSettings_def get_def
        object_prototype_def)
  have t: "this_defaultSettings (snd (getSettings E (constructor [] fs)))
      = defaultSettings @ [(''_id'', JUndefined), (''logo'', JNull)]"
    using read_absent_fresh [of E "[]" fs]
    by (simp add: getSettings_def findOne_def constructor_def)
  have 2: "getValidDocumentForUpdate E
        (defaultSettings @ [(''_id'', JUndefined), (''logo'', JNull)])
        [(''logo'', JStr ''x'')]
     = Inl (Error ''Unknown setting: logo'')"
    by (simp add: getValidDocumentForUpdate_def keys_def defaultSettings_def get_def
        object_prototype_def coerce_def string_fields_def)
  from 1 2 show ?thesis by (simp add: t)
qed

text \<open>
  C8. For every input that defines \<open>products_limit\<close>, the validator run over the
  defaults table returns a patch. Whatever table with the key \<open>products_limit\<close> the
  validator walks, a patch it returns has under \<open>products_limit\<close> the result of
  \<open>parse.getNumberIfPositive\<close> as it comes, whatever that is. For
  \<open>decimal_number\<close> the patch holds that result only when it is truthy, and 0
  otherwise.
\<close>

theorem C8_products_limit_is_not_defaulted:
  assumes "get data ''products_limit'' \<noteq> JUndefined"
  shows "(\<exists>patch. getValidDocumentForUpdate E defaultSettings data = Inr (Settings patch))
     \<and> (\<forall>table patch. getValidDocumentForUpdate E table data = Inr (Settings patch) \<longrightarrow>
          (''products_limit'' \<in> set (keys table) \<longrightarrow>
             get patch ''products_limit'' = getNumberIfPositive E (get data ''products_limit''))
          \<and> (''decimal_number'' \<in> set (keys table) \<and> get data ''decimal_number'' \<noteq> JUndefined \<longrightarrow>
             get patch ''decimal_number''
               = (if truthy (getNumberIfPositive E (get data ''decimal_number''))
                  then getNumberIfPositive E (get data ''decimal_number'') else JNum 0)))"
proof -
  have ne: "data \<noteq> []"
    using get_present [OF assms own_names(2)] by (auto simp: keys_def)
  from forEach_key_result [of "keys defaultSettings" data E "[]"]
  obtain p where "forEach_key E data (keys defaultSettings) [] = Inr p"
    using coerce_defaults by blast
  then have 1: "\<exists>patch. getValidDocumentForUpdate E defaultSettings data = Inr (Settings patch)"
    using ne by (simp add: getValidDocumentForUpdate_def keys_def)
  have 2: "(''products_limit'' \<in> set (keys table) \<longrightarrow>
             get patch ''products_limit'' = getNumberIfPositive E (get data ''products_limit''))
          \<and> (''decimal_number'' \<in> set (keys table) \<and> get data ''decimal_number'' \<noteq> JUndefined \<longrightarrow>
             get patch ''decimal_number''
               = (if truthy (getNumberIfPositive E (get data ''decimal_number''))
                  then getNumberIfPositive E (get data ''decimal_number'') else JNum 0))"
    if v: "getValidDocumentForUpdate E table data = Inr (Settings patch)" for table patch
  proof -
    have run: "forEach_key E data (keys table) [] = Inr patch"
      using getValid_Settings [OF v] by simp
    have a: "get patch ''products_limit'' = getNumberIfPositive E (get data ''products_limit'')"
      if "''products_limit'' \<in> set (keys table)"
      using forEach_key_get [OF run that assms] by (simp add: coerce_def string_fields_def)
    have b: "get patch ''decimal_number''
               = (if truthy (getNumberIfPositive E (get data ''decimal_number''))
                  then getNumberIfPositive E (get data ''decimal_number'') else JNum 0)"
      if "''decimal_number'' \<in> set (keys table)" "get data ''decimal_number'' \<noteq> JUndefined"
      using forEach_key_get [OF run that] by (simp add: coerce_def string_fields_def js_or_def)
    from a b show ?thesis by blast
  qed
  from 1 2 show ?thesis by blast
qed

text \<open>With a helper whose sentinel is \<open>null\<close>, the input
  \<open>{products_limit: 'abc', decimal_number: -5}\<close> stores \<open>null\<close> and 0.\<close>

theorem C8_products_limit_is_not_defaulted_witness:
  "get [(''products_limit'', JStr ''abc''), (''decimal_number'', JNum (- 5))] ''products_limit''
      \<noteq> JUndefined
   \<and> (\<exists>patch. getValidDocumentForUpdate example_env defaultSettings
          [(''products_limit'', JStr ''abc''), (''decimal_number'', JNum (- 5))]
        = Inr (Settings patch)
      \<and> get patch ''products_limit'' = JNull
      \<and> get patch ''decimal_number'' = JNum 0)"
proof -
  let ?data = "[(''products_limit'', JStr ''abc''), (''decimal_number'', JNum (- 5))]"
  have h: "get ?data ''products_limit'' \<noteq> JUndefined"
    by (simp add: get_def)
  have v: "get ?data ''products_limit'' = JStr ''abc''" "get ?data ''decimal_number'' = JNum (- 5)"
    by (simp_all add: get_def)
  have k: "''products_limit'' \<in> set (keys defaultSettings)"
    "''decimal_number'' \<in> set (keys defaultSettings)"
    by (simp_all add: keys_def defaultSettings_def)
  note c8 = C8_products_limit_is_not_defaulted [OF h, of example_env]
  from c8 obtain patch where p:
    "getValidDocumentForUpdate example_env defaultSettings ?data = Inr (Settings patch)"
    by blast
  have "get patch ''products_limit''
      = getNumberIfPositive example_env (get ?data ''products_limit'')"
    using c8 p k(1) by blast
  then have 1: "get patch ''products_limit'' = JNull"
    using v(1) by (simp add: example_env_def)
  have "get patch ''decimal_number''
      = (if truthy (getNumberIfPositive example_env (get ?data ''decimal_number''))
         then getNumberIfPositive example_env (get ?data ''decimal_number'') else JNum 0)"
    using c8 p k(2) v(2) by auto
  then have 2: "get patch ''decimal_number'' = JNum 0"
    using v(2) by (simp add: example_env_def)
  from h p 1 2 show ?thesis by blast
qed

section \<open>Deleting the logo\<close>

text \<open>
  C9. Let \<open>getSettings\<close> return a view. When its \<open>logo_file\<close> is \<open>null\<close>, absent
  or empty, \<open>deleteLogo\<close> ends without calling \<open>fs.unlink\<close> or \<open>updateSettings\<close>
  and leaves the collection and the files as they were. When it is a non-empty string,
  \<open>fs.unlink\<close> is called once on the resolved path of that file in the upload directory,
  the file is gone unless the deletion failed, and in both cases \<open>updateSettings\<close> is
  called once, with \<open>{logo_file: null}\<close>.
\<close>

theorem C9_deleteLogo:
  assumes "fst (getSettings E s) = Inr view"
  shows "(get view ''logo_file'' = JNull \<or> get view ''logo_file'' = JUndefined
            \<or> get view ''logo_file'' = JStr '''' \<longrightarrow>
          fst (deleteLogo E s) = Inr ()
          \<and> collection (snd (deleteLogo E s)) = collection s
          \<and> files (snd (deleteLogo E s)) = files s
          \<and> unlink_calls (snd (deleteLogo E s)) = unlink_calls s
          \<and> update_calls (snd (deleteLogo E s)) = update_calls s)
     \<and> (\<forall>f. get view ''logo_file'' = JStr f \<and> f \<noteq> [] \<longrightarrow>
          fst (deleteLogo E s) = Inr ()
          \<and> unlink_calls (snd (deleteLogo E s))
              = unlink_calls s @ [resolve_path E (filesUploadPath E @ ''/'' @ f)]
          \<and> files (snd (deleteLogo E s))
              = (if unlink_fails E (resolve_path E (filesUploadPath E @ ''/'' @ f)) then files s
                 else removeAll (resolve_path E (filesUploadPath E @ ''/'' @ f)) (files s))
          \<and> update_calls (snd (deleteLogo E s)) = update_calls s @ [[(''logo_file'', JNull)]])"
proof -
  obtain s1 where s1: "getSettings E s = (Inr view, s1)"
    using assms by (cases "getSettings E s") simp
  have fr: "collection s1 = collection s" "files s1 = files s"
    "unlink_calls s1 = unlink_calls s" "update_calls s1 = update_calls s"
    using getSettings_frame [of E s] s1 by simp_all
  have a: "get view ''logo_file'' = JNull \<or> get view ''logo_file'' = JUndefined
            \<or> get view ''logo_file'' = JStr '''' \<longrightarrow>
          fst (deleteLogo E s) = Inr ()
          \<and> collection (snd (deleteLogo E s)) = collection s
          \<and> files (snd (deleteLogo E s)) = files s
          \<and> unlink_calls (snd (deleteLogo E s)) = unlink_calls s
          \<and> update_calls (snd (deleteLogo E s)) = update_calls s"
    using s1 fr by (auto simp: deleteLogo_def nonempty_def)
  have b: "fst (deleteLogo E s) = Inr ()
          \<and> unlink_calls (snd (deleteLogo E s))
              = unlink_calls s @ [resolve_path E (filesUploadPath E @ ''/'' @ f)]
          \<and> files (snd (deleteLogo E s))
              = (if unlink_fails E (resolve_path E (filesUploadPath E @ ''/'' @ f)) then files s
                 else removeAll (resolve_path E (filesUploadPath E @ ''/'' @ f)) (files s))
          \<and> update_calls (snd (deleteLogo E s)) = update_calls s @ [[(''logo_file'', JNull)]]"
    if f: "get view ''logo_file'' = JStr f" "f \<noteq> []" for f
  proof -
    let ?p = "resolve_path E (filesUploadPath E @ ''/'' @ f)"
    have "deleteLogo E s
        = (Inr (), snd (updateSettings E [(''logo_file'', JNull)] (unlink E ?p s1)))"
      using s1 f by (simp add: deleteLogo_def nonempty_def Let_def)
    then show ?thesis
      using updateSettings_frame [of E "[(''logo_file'', JNull)]" "unlink E ?p s1"] fr
      by (simp add: unlink_def)
  qed
  from a b show ?thesis by blast
qed

text \<open>A service whose record names the logo file \<open>x.png\<close>, with that file on disk:
  one deletion, one update, the file is gone.\<close>

theorem C9_deleteLogo_witness:
  "fst (getSettings example_env
          (constructor [[(''logo_file'', JStr ''x.png'')]] [''/srv/public/images/x.png'']))
     = Inr (set_prop (set_prop (set_prop defaultSettings ''logo_file'' (JStr ''x.png''))
              ''_id'' JUndefined) ''logo'' (JStr ''/images/x.png''))
   \<and> unlink_calls (snd (deleteLogo example_env
          (constructor [[(''logo_file'', JStr ''x.png'')]] [''/srv/public/images/x.png''])))
       = [''/srv/public/images/x.png'']
   \<and> files (snd (deleteLogo example_env
          (constructor [[(''logo_file'', JStr ''x.png'')]] [''/srv/public/images/x.png''])))
       = []
   \<and> update_calls (snd (deleteLogo example_env
          (constructor [[(''logo_file'', JStr ''x.png'')]] [''/srv/public/images/x.png''])))
       = [[(''logo_file'', JNull)]]
   \<and> unlink_calls (snd (deleteLogo example_env (constructor [] [''/srv/public/images/x.png''])))
       = []
   \<and> update_calls (snd (deleteLogo example_env (constructor [] [''/srv/public/images/x.png''])))
       = []
   \<and> files (snd (deleteLogo example_env (constructor [] [''/srv/public/images/x.png''])))
       = [''/srv/public/images/x.png'']
   \<and> collection (snd (deleteLogo example_env (constructor [] [''/srv/public/images/x.png''])))
       = []"
proof -
  let ?s = "constructor [[(''logo_file'', JStr ''x.png'')]] [''/srv/public/images/x.png'']"
  let ?view = "set_prop (set_prop (set_prop defaultSettings ''logo_file'' (JStr ''x.png''))
              ''_id'' JUndefined) ''logo'' (JStr ''/images/x.png'')"
  have dom: "get (set_prop (set_prop defaultSettings ''logo_file'' (JStr ''x.png''))
              ''_id'' JUndefined) ''domain'' = JStr ''''"
    by (simp add: get_set_prop) (simp add: get_def defaultSettings_def)
  have h: "fst (getSettings example_env ?s) = Inr ?view"
    by (simp add: getSettings_def findOne_def constructor_def changeProperties_def Let_def
        assign_single dom) (simp add: get_set_prop nonempty_def example_env_def)
  have f: "get ?view ''logo_file'' = JStr ''x.png'' \<and> ''x.png'' \<noteq> []"
    by (simp add: get_set_prop)
  have e: "resolve_path example_env (filesUploadPath example_env @ ''/x.png'')
      = ''/srv/public/images/x.png''" "\<not> unlink_fails example_env p" for p
    by (simp_all add: example_env_def)
  have i: "files ?s = [''/srv/public/images/x.png'']" "unlink_calls ?s = []" "update_calls ?s = []"
    by (simp_all add: constructor_def)
  from C9_deleteLogo [OF h] f
  have "unlink_calls (snd (deleteLogo example_env ?s))
          = unlink_calls ?s
            @ [resolve_path example_env (filesUploadPath example_env @ ''/'' @ ''x.png'')]
      \<and> files (snd (deleteLogo example_env ?s))
          = (if unlink_fails example_env
                  (resolve_path example_env (filesUploadPath example_env @ ''/'' @ ''x.png''))
             then files ?s
             else removeAll
                  (resolve_path example_env (filesUploadPath example_env @ ''/'' @ ''x.png''))
                  (files ?s))
      \<and> update_calls (snd (deleteLogo example_env ?s))
          = update_calls ?s @ [[(''logo_file'', JNull)]]"
    by blast
  then have 1: "unlink_calls (snd (deleteLogo example_env ?s)) = [''/srv/public/images/x.png'']
      \<and> files (snd (deleteLogo example_env ?s)) = []
      \<and> update_calls (snd (deleteLogo example_env ?s)) = [[(''logo_file'', JNull)]]"
    by (simp add: e i)
  let ?t = "constructor [] [''/srv/public/images/x.png'']"
  let ?none = "defaultSettings @ [(''_id'', JUndefined), (''logo'', JNull)]"
  have h2: "fst (getSettings example_env ?t) = Inr ?none"
    by (simp add: getSettings_def findOne_def constructor_def changeProperties_def Let_def
        assign_single get_defaults_domain get_defaults_logo_file nonempty_def
        view_of_defaults)
  have f2: "get ?none ''logo_file'' = JNull"
    by (simp add: get_def defaultSettings_def)
  from C9_deleteLogo [OF h2] f2
  have "unlink_calls (snd (deleteLogo example_env ?t)) = unlink_calls ?t
      \<and> update_calls (snd (deleteLogo example_env ?t)) = update_calls ?t
      \<and> files (snd (deleteLogo example_env ?t)) = files ?t
      \<and> collection (snd (deleteLogo example_env ?t)) = collection ?t"
    by blast
  then have 2: "unlink_calls (snd (deleteLogo example_env ?t)) = []
      \<and> update_calls (snd (deleteLogo example_env ?t)) = []
      \<and> files (snd (deleteLogo example_env ?t)) = [''/srv/public/images/x.png'']
      \<and> collection (snd (deleteLogo example_env ?t)) = []"
    by (simp add: constructor_def)
  from h 1 2 show ?thesis by blast
qed

section \<open>Clearing the logo file\<close>

text \<open>
  C10. Let \<open>parse.getString\<close> return a string for every value and the empty string
  for \<open>null\<close>, and let the defaults table and the persisted record be objects (no key
  twice) with \<open>logo_file\<close> a key of the table and no key of the table the name of a
  member of \<open>Object.prototype\<close>. Then for every update whose input
  defines \<open>logo_file\<close> and passes the validator, the record stored has
  \<open>parse.getString\<close> of that value as its \<open>logo_file\<close>, which is not \<open>null\<close>.
  The update \<open>{logo_file: null}\<close> stores the empty string and returns a view whose
  \<open>logo_file\<close> is the empty string and whose \<open>logo\<close> is \<open>null\<close>.
\<close>

theorem C10_logo_file_is_stored_as_string:
  assumes str: "\<forall>v. \<exists>t. getString E v = JStr t"
    and null: "getString E JNull = JStr ''''"
    and key: "''logo_file'' \<in> set (keys (this_defaultSettings s))"
    and wf: "distinct (keys (this_defaultSettings s))"
            "\<forall>d. findOne s = Some d \<longrightarrow> distinct (keys d)"
    and own: "set (keys (this_defaultSettings s)) \<inter> set (keys object_prototype) = {}"
  shows "(\<forall>data patch.
            getValidDocumentForUpdate E (this_defaultSettings s) data = Inr (Settings patch)
            \<and> get data ''logo_file'' \<noteq> JUndefined \<longrightarrow>
              get (hd (collection (snd (updateSettings E data s)))) ''logo_file''
                = getString E (get data ''logo_file'')
              \<and> get (hd (collection (snd (updateSettings E data s)))) ''logo_file'' \<noteq> JNull)
     \<and> get (hd (collection (snd (updateSettings E [(''logo_file'', JNull)] s)))) ''logo_file''
          = JStr ''''
     \<and> (\<exists>view. fst (updateSettings E [(''logo_file'', JNull)] s) = Inr view
            \<and> get view ''logo_file'' = JStr '''' \<and> get view ''logo'' = JNull)"
proof -
  define prior where
    "prior = (if countDocuments s = 0 then this_defaultSettings s else hd (collection s))"
  have defined: "getString E v \<noteq> JUndefined" "getString E v \<noteq> JNull" for v
    using str [rule_format, of v] by auto
  have 1: "get (hd (collection (snd (updateSettings E data s)))) ''logo_file''
                = getString E (get data ''logo_file'')
           \<and> get (hd (collection (snd (updateSettings E data s)))) ''logo_file'' \<noteq> JNull"
    if "getValidDocumentForUpdate E (this_defaultSettings s) data = Inr (Settings patch)"
      and "get data ''logo_file'' \<noteq> JUndefined" for data patch
    using persisted_logo_file [OF that key defined(1) prior_def]
      updateSettings_patch(2) [OF that(1) prior_def] defined(2)
    by simp
  let ?data = "[(''logo_file'', JNull)]"
  have only: "k = ''logo_file''"
    if "k \<in> set (keys (this_defaultSettings s))" "get ?data k \<noteq> JUndefined" for k
  proof -
    have "k \<notin> set (keys object_prototype)" using that(1) own by blast
    then have "k \<in> set (keys ?data)" using get_present [OF that(2)] by blast
    then show ?thesis by (simp add: keys_def)
  qed
  have "\<exists>v. coerce E k (get ?data k) = Inr v"
    if "k \<in> set (keys (this_defaultSettings s))" "get ?data k \<noteq> JUndefined" for k
    using only [OF that] coerce_logo_file by simp
  then obtain p where "forEach_key E ?data (keys (this_defaultSettings s)) [] = Inr p"
    using forEach_key_result [of "keys (this_defaultSettings s)" ?data E "[]"] by blast
  then have v: "getValidDocumentForUpdate E (this_defaultSettings s) ?data = Inr (Settings p)"
    by (simp add: getValidDocumentForUpdate_def keys_def)
  have present: "get ?data ''logo_file'' \<noteq> JUndefined" "get ?data ''logo_file'' = JNull"
    by (simp_all add: get_def)
  have doc: "get (assign prior p) ''logo_file'' = JStr ''''"
    using persisted_logo_file [OF v present(1) key defined(1) prior_def] present(2) null by simp
  have 2: "get (hd (collection (snd (updateSettings E ?data s)))) ''logo_file'' = JStr ''''"
    using doc updateSettings_patch(2) [OF v prior_def] by simp
  have "distinct (keys prior)"
    using wf by (cases "collection s") (simp_all add: prior_def countDocuments_def findOne_def)
  then have dd: "distinct (keys (assign prior p))"
    by (rule distinct_assign)
  define d0 where "d0 = set_prop (assign_opt (this_defaultSettings s) (Some (assign prior p)))
      ''_id'' JUndefined"
  define d1 where "d1 = (if get d0 ''domain'' = JNull \<or> get d0 ''domain'' = JUndefined
               then set_prop d0 ''domain'' (JStr '''') else d0)"
  have "''logo_file'' \<in> set (keys (assign prior p))"
    using doc get_present [of "assign prior p" "''logo_file''"] own_names(1) by simp
  then have "get d0 ''logo_file'' = JStr ''''"
    using get_assign [OF dd, of "this_defaultSettings s" "''logo_file''"] doc
    by (simp add: d0_def get_set_prop)
  then have lf: "get d1 ''logo_file'' = JStr ''''"
    by (simp add: d1_def get_set_prop)
  then have "fst (changeProperties E (Some (assign prior p)) s) = Inr (set_prop d1 ''logo'' JNull)"
    using changeProperties_run [OF d0_def d1_def, of E] by (simp add: nonempty_def)
  then have "fst (updateSettings E ?data s) = Inr (set_prop d1 ''logo'' JNull)"
    using updateSettings_patch(3) [OF v prior_def] by simp
  moreover have "get (set_prop d1 ''logo'' JNull) ''logo_file'' = JStr ''''"
    using lf by (simp add: get_set_prop)
  moreover have "get (set_prop d1 ''logo'' JNull) ''logo'' = JNull"
    by (simp add: get_set_prop)
  ultimately have 3: "\<exists>view. fst (updateSettings E ?data s) = Inr view
            \<and> get view ''logo_file'' = JStr '''' \<and> get view ''logo'' = JNull"
    by blast
  from 1 2 3 show ?thesis by blast
qed

text \<open>A fresh service over the record \<open>{logo_file: 'x.png'}\<close>, cleared with
  \<open>{logo_file: null}\<close>.\<close>

theorem C10_logo_file_is_stored_as_string_witness:
  "get (hd (collection (snd (updateSettings example_env [(''logo_file'', JNull)]
        (constructor [[(''logo_file'', JStr ''x.png'')]] []))))) ''logo_file'' = JStr ''''
   \<and> (\<exists>view. fst (updateSettings example_env [(''logo_file'', JNull)]
                (constructor [[(''logo_file'', JStr ''x.png'')]] [])) = Inr view
          \<and> get view ''logo_file'' = JStr '''' \<and> get view ''logo'' = JNull)"
proof -
  let ?s = "constructor [[(''logo_file'', JStr ''x.png'')]] []"
  have str: "\<forall>v. \<exists>t. getString example_env v = JStr t"
    by (simp add: example_env_def split: jsval.split)
  have null: "getString example_env JNull = JStr ''''"
    by (simp add: example_env_def)
  have key: "''logo_file'' \<in> set (keys (this_defaultSettings ?s))"
    by (simp add: constructor_def keys_def defaultSettings_def)
  have wf1: "distinct (keys (this_defaultSettings ?s))"
    using distinct_defaults by (simp add: constructor_def)
  have wf2: "\<forall>d. findOne ?s = Some d \<longrightarrow> distinct (keys d)"
    by (simp add: findOne_def constructor_def keys_def)
  have own: "set (keys (this_defaultSettings ?s)) \<inter> set (keys object_prototype) = {}"
    by (simp add: constructor_def keys_def defaultSettings_def object_prototype_def)
  from C10_logo_file_is_stored_as_string [OF str null key wf1 wf2 own]
  show ?thesis by blast
qed

end
